theory Spec2Isabelle
  imports Main "HOL-Library.AList"
begin

section \<open>Employee search system: embedding of app.py\<close>

text \<open>
  The program is one script, \<^verbatim>\<open>app.py\<close>: two functions that call the Gemini model, two
  that call Firestore, and two Streamlit handlers. Everything outside the script is made
  explicit here:
  \<^item> the Gemini model is a function from prompts to an answer or an exception;
  \<^item> Firestore is a part of the state: the documents of the collection
    \<^verbatim>\<open>employees\<close>, the server clock, and the answers it will give to the coming requests;
  \<^item> what Streamlit shows is the list of \<^verbatim>\<open>st.*\<close> calls made so far;
  \<^item> a Python exception that leaves a function is a result value of that function.

  A Python \<^verbatim>\<open>str\<close> is modelled by its UTF-8 bytes: equality, emptiness, joining and splitting
  at a comma are the same on both.
\<close>

subsection \<open>Data\<close>

datatype py_exception = Exception string

fun str_of_exception :: "py_exception \<Rightarrow> string" where
  "str_of_exception (Exception msg) = msg"

text \<open>
  The dictionaries of the program. \<^verbatim>\<open>data\<close> in \<^verbatim>\<open>save_employee_data\<close> has the keys
  name, description, structured_description, tags, updated_at; an entry of \<^verbatim>\<open>results\<close> in
  \<^verbatim>\<open>search_employees_by_tags\<close> has name, description, tags, match_count,
  matched_keywords. The three common keys are the fields of \<open>profile\<close>. The collection
  holds only what \<^verbatim>\<open>save_employee_data\<close> writes, so a stored document has all five keys
  and the lookups \<^verbatim>\<open>data['name']\<close>, \<^verbatim>\<open>data.get('tags', [])\<close> find them.
\<close>

record profile =
  name :: string
  description :: string
  tags :: "string list"

record employee = profile +
  structured_description :: string
  updated_at :: nat

record result = profile +
  match_count :: nat
  matched_keywords :: "string list"

text \<open>
  The two prompts are fixed Japanese instructions around the embedded text; a prompt is
  identified by its template and that text.
\<close>

datatype prompt = Tag_prompt string | Structure_prompt string

type_synonym generative_model = "prompt \<Rightarrow> py_exception + string"

text \<open>
  The calls to Streamlit that put something on the page. The fixed Japanese sentences are
  the constructors; the interpolated values are their arguments.
\<close>

datatype st_call =
    St_error string
  | St_subheader_extracted
  | St_success_updated string
  | St_markdown_rule
  | St_subheader_tagging
  | St_write string
  | St_subheader_structured
  | St_markdown string
  | St_success_registered string
  | St_info string
  | St_subheader_matched nat
  | St_expander nat string nat string string string
  | St_warning_no_match

text \<open>The requests sent to the two services, in the order they were sent.\<close>

datatype request =
    Generate_content prompt
  | Document_set string string string "string list" string
  | Collection_stream

record world =
  employees :: "(string \<times> employee) list"
  server_time :: nat
  outages :: "py_exception option list"
  requests :: "request list"
  screen :: "st_call list"

definition st :: "st_call \<Rightarrow> world \<Rightarrow> world" where
  "st c w = w\<lparr>screen := screen w @ [c]\<rparr>"

definition send :: "request \<Rightarrow> world \<Rightarrow> world" where
  "send r w = w\<lparr>requests := requests w @ [r]\<rparr>"

subsection \<open>Strings\<close>

text \<open>\<^verbatim>\<open>sep.join(xs)\<close>.\<close>

fun join :: "string \<Rightarrow> string list \<Rightarrow> string" where
  "join sep [] = []"
| "join sep [x] = x"
| "join sep (x # y # ys) = x @ sep @ join sep (y # ys)"

text \<open>\<^verbatim>\<open>s.split(',')\<close>: the pieces between the commas, at least one piece.\<close>

fun split_comma :: "string \<Rightarrow> string list" where
  "split_comma [] = [[]]"
| "split_comma (c # cs) =
     (if c = CHR '','' then [] # split_comma cs
      else (case split_comma cs of
              [] \<Rightarrow> [[c]]
            | p # ps \<Rightarrow> (c # p) # ps))"

text \<open>
  \<^verbatim>\<open>s.strip()\<close> removes the code points with \<^verbatim>\<open>str.isspace\<close> from both ends. Their UTF-8
  encodings: U+0009 to U+000D, U+001C to U+0020, U+0085, U+00A0, U+1680, U+2000 to U+200A,
  U+2028, U+2029, U+202F, U+205F, U+3000.
\<close>

definition whitespace :: "string list" where
  "whitespace =
     [[CHR 0x09], [CHR 0x0A], [CHR 0x0B], [CHR 0x0C], [CHR 0x0D],
      [CHR 0x1C], [CHR 0x1D], [CHR 0x1E], [CHR 0x1F], [CHR 0x20],
      [CHR 0xC2, CHR 0x85], [CHR 0xC2, CHR 0xA0],
      [CHR 0xE1, CHR 0x9A, CHR 0x80],
      [CHR 0xE2, CHR 0x80, CHR 0x80], [CHR 0xE2, CHR 0x80, CHR 0x81],
      [CHR 0xE2, CHR 0x80, CHR 0x82], [CHR 0xE2, CHR 0x80, CHR 0x83],
      [CHR 0xE2, CHR 0x80, CHR 0x84], [CHR 0xE2, CHR 0x80, CHR 0x85],
      [CHR 0xE2, CHR 0x80, CHR 0x86], [CHR 0xE2, CHR 0x80, CHR 0x87],
      [CHR 0xE2, CHR 0x80, CHR 0x88], [CHR 0xE2, CHR 0x80, CHR 0x89],
      [CHR 0xE2, CHR 0x80, CHR 0x8A],
      [CHR 0xE2, CHR 0x80, CHR 0xA8], [CHR 0xE2, CHR 0x80, CHR 0xA9],
      [CHR 0xE2, CHR 0x80, CHR 0xAF],
      [CHR 0xE2, CHR 0x81, CHR 0x9F],
      [CHR 0xE3, CHR 0x80, CHR 0x80]]"

definition leading :: "string list \<Rightarrow> string \<Rightarrow> nat" where
  "leading ws s =
     (case filter (\<lambda>w. take (length w) s = w) ws of
        [] \<Rightarrow> 0
      | w # _ \<Rightarrow> length w)"

function strip_front :: "string list \<Rightarrow> string \<Rightarrow> string" where
  "strip_front ws s =
     (if s = [] \<or> leading ws s = 0 then s else strip_front ws (drop (leading ws s) s))"
  by pat_completeness auto
termination
  by (relation "measure (\<lambda>(ws, s). length s)") auto

definition lstrip :: "string \<Rightarrow> string" where
  "lstrip s = strip_front whitespace s"

definition rstrip :: "string \<Rightarrow> string" where
  "rstrip s = rev (strip_front (map rev whitespace) (rev s))"

definition strip :: "string \<Rightarrow> string" where
  "strip s = rstrip (lstrip s)"

subsection \<open>The Gemini functions\<close>

text \<open>
  \<^verbatim>\<open>extract_tags_with_gemini(text)\<close>: the call and the parsing are inside one
  \<^verbatim>\<open>try\<close>; the handler shows the error and returns the empty list.
\<close>

definition extract_tags_with_gemini ::
  "generative_model \<Rightarrow> string \<Rightarrow> world \<Rightarrow> string list \<times> world" where
  "extract_tags_with_gemini model text w =
     (let w1 = send (Generate_content (Tag_prompt text)) w in
      case model (Tag_prompt text) of
        Inr response_text \<Rightarrow> (map strip (split_comma response_text), w1)
      | Inl e \<Rightarrow> ([], st (St_error (''Gemini API Error: '' @ str_of_exception e)) w1))"

text \<open>The marker \<^verbatim>\<open>structure_description_with_gemini\<close> returns on failure, in UTF-8.\<close>

definition structuring_failed :: string where
  "structuring_failed =
     ''--- '' @
     [CHR 0xE6, CHR 0xA7, CHR 0x8B, CHR 0xE9, CHR 0x80, CHR 0xA0, CHR 0xE5, CHR 0x8C, CHR 0x96,
      CHR 0xE3, CHR 0x81, CHR 0xAB, CHR 0xE5, CHR 0xA4, CHR 0xB1, CHR 0xE6, CHR 0x95, CHR 0x97]
     @ '' ---''"

definition structure_description_with_gemini ::
  "generative_model \<Rightarrow> string \<Rightarrow> world \<Rightarrow> string \<times> world" where
  "structure_description_with_gemini model text w =
     (let w1 = send (Generate_content (Structure_prompt text)) w in
      case model (Structure_prompt text) of
        Inr response_text \<Rightarrow> (response_text, w1)
      | Inl e \<Rightarrow>
          (structuring_failed,
           st (St_error (''Gemini API Error (Structure): '' @ str_of_exception e)) w1))"

subsection \<open>The Firestore functions\<close>

text \<open>
  The list \<open>employees\<close> is the collection in the order in which \<^verbatim>\<open>stream()\<close> yields
  its documents, with the document id in front of each. A request to Firestore is logged,
  then answered: the head of \<open>outages\<close> is the answer
  to the next request (\<open>Some e\<close>: the client raises \<open>e\<close>), and Firestore answers
  normally once the list is used up. A request that raises has written nothing: the
  write of a document is one atomic operation of the store.
\<close>

definition firestore :: "request \<Rightarrow> world \<Rightarrow> py_exception option \<times> world" where
  "firestore r w =
     (let w1 = send r w in
      case outages w1 of
        [] \<Rightarrow> (None, w1)
      | x # xs \<Rightarrow> (x, w1\<lparr>outages := xs\<rparr>))"

text \<open>
  \<^verbatim>\<open>save_employee_data\<close>: \<^verbatim>\<open>doc_ref.set(data)\<close> on the document whose id is the name.
  The write replaces the whole document or creates it; \<^verbatim>\<open>SERVER_TIMESTAMP\<close> is the
  server's clock at the write, which then moves on. There is no \<^verbatim>\<open>try\<close>: an exception
  of the client leaves the function.
\<close>

definition save_employee_data ::
  "string \<Rightarrow> string \<Rightarrow> string list \<Rightarrow> string \<Rightarrow> world \<Rightarrow> py_exception option \<times> world" where
  "save_employee_data name' description' tags' structured_description' w =
     (case firestore (Document_set name' name' description' tags' structured_description') w of
        (Some e, w1) \<Rightarrow> (Some e, w1)
      | (None, w1) \<Rightarrow>
          (let data = \<lparr>name = name', description = description', tags = tags',
                       structured_description = structured_description',
                       updated_at = server_time w1\<rparr>
           in (None, w1\<lparr>employees := AList.update name' data (employees w1),
                         server_time := Suc (server_time w1)\<rparr>)))"

text \<open>
  Python sets: a set is a list without repetitions; the order of its elements is the
  order of first occurrence here, and is not fixed in Python.
\<close>

definition py_set :: "'a list \<Rightarrow> 'a list" where
  "py_set xs = remdups xs"

definition intersection :: "'a list \<Rightarrow> 'a list \<Rightarrow> 'a list" where
  "intersection s t = filter (\<lambda>x. x \<in> set t) s"

text \<open>
  \<^verbatim>\<open>xs.sort(key=f, reverse=True)\<close>: CPython reverses the list, sorts it stably in
  ascending order of the key, and reverses the outcome.
\<close>

definition sort_reverse :: "('a \<Rightarrow> nat) \<Rightarrow> 'a list \<Rightarrow> 'a list" where
  "sort_reverse f xs = rev (sort_key f (rev xs))"

text \<open>The \<^verbatim>\<open>for doc in docs\<close> loop of \<^verbatim>\<open>search_employees_by_tags\<close>.\<close>

fun for_doc :: "string list \<Rightarrow> employee list \<Rightarrow> result list \<Rightarrow> result list" where
  "for_doc search_set [] results = results"
| "for_doc search_set (data # docs) results =
     (let emp_tags = py_set (tags data);
          match_tags = intersection search_set emp_tags;
          count = length match_tags
      in if count > 0
         then for_doc search_set docs
                (results @ [\<lparr>name = name data, description = description data,
                              tags = tags data, match_count = count,
                              matched_keywords = match_tags\<rparr>])
         else for_doc search_set docs results)"

text \<open>
  What \<^verbatim>\<open>search_employees_by_tags\<close> computes from the documents it has read: the Matcher,
  \<open>rank\<close>, of the specification.
\<close>

definition rank :: "string list \<Rightarrow> employee list \<Rightarrow> result list" where
  "rank search_tags docs =
     (let search_set = py_set search_tags;
          results = for_doc search_set docs []
      in sort_reverse match_count results)"

definition search_employees_by_tags ::
  "string list \<Rightarrow> world \<Rightarrow> (py_exception + result list) \<times> world" where
  "search_employees_by_tags search_tags w =
     (case firestore Collection_stream w of
        (Some e, w1) \<Rightarrow> (Inl e, w1)
      | (None, w1) \<Rightarrow> (Inr (rank search_tags (map snd (employees w1))), w1))"

subsection \<open>The handlers\<close>

text \<open>
  The body of \<^verbatim>\<open>register_form\<close>. A Python string is true when it is not empty. The
  result is the exception that left the handler, if any. The spinner around the body
  leaves nothing on the page and is not in the list of calls.
\<close>

definition register_form ::
  "generative_model \<Rightarrow> bool \<Rightarrow> string \<Rightarrow> string \<Rightarrow> world \<Rightarrow> py_exception option \<times> world" where
  "register_form model submitted name_input desc_input w =
     (if submitted \<and> name_input \<noteq> [] \<and> desc_input \<noteq> [] then
        (let (extracted_tags, w1) = extract_tags_with_gemini model desc_input w;
             (structured_desc, w2) = structure_description_with_gemini model desc_input w1;
             w3 = st St_subheader_extracted w2
         in case save_employee_data name_input desc_input extracted_tags structured_desc w3 of
              (Some e, w4) \<Rightarrow> (Some e, w4)
            | (None, w4) \<Rightarrow>
                (let w5 = st (St_success_updated name_input) w4;
                     w6 = st St_markdown_rule w5;
                     w7 = st St_subheader_tagging w6;
                     w8 = st (St_write (join '', '' extracted_tags)) w7;
                     w9 = st St_subheader_structured w8;
                     w10 = st (St_markdown structured_desc) w9
                 in case save_employee_data name_input desc_input extracted_tags
                           structured_desc w10 of
                      (Some e, w11) \<Rightarrow> (Some e, w11)
                    | (None, w11) \<Rightarrow> (None, st (St_success_registered name_input) w11)))
      else (None, w))"

text \<open>The expanders of the result list, numbered from 1.\<close>

fun expanders :: "nat \<Rightarrow> result list \<Rightarrow> world \<Rightarrow> world" where
  "expanders i [] w = w"
| "expanders i (emp # emps) w =
     expanders (Suc i) emps
       (st (St_expander (Suc i) (name emp) (match_count emp)
              (join '', '' (matched_keywords emp)) (join '', '' (tags emp))
              (description emp)) w)"

definition search_button ::
  "generative_model \<Rightarrow> bool \<Rightarrow> string \<Rightarrow> world \<Rightarrow> py_exception option \<times> world" where
  "search_button model search_btn search_query w =
     (if search_btn \<and> search_query \<noteq> [] then
        (let (query_tags, w1) = extract_tags_with_gemini model search_query w;
             w2 = st (St_info (join '', '' query_tags)) w1
         in case search_employees_by_tags query_tags w2 of
              (Inl e, w3) \<Rightarrow> (Some e, w3)
            | (Inr results, w3) \<Rightarrow>
                (if results \<noteq> []
                 then (None, expanders 0 results (st (St_subheader_matched (length results)) w3))
                 else (None, st St_warning_no_match w3)))
      else (None, w))"

subsection \<open>Vocabulary of the properties\<close>

text \<open>
  The common tags of a search set and a document, and the entry the loop appends for a
  document that has some (lines 129 to 139).
\<close>

definition matches :: "string list \<Rightarrow> employee \<Rightarrow> string list" where
  "matches search_set data = intersection search_set (py_set (tags data))"

definition entry :: "string list \<Rightarrow> employee \<Rightarrow> result" where
  "entry search_set data =
     \<lparr>name = name data, description = description data, tags = tags data,
      match_count = length (matches search_set data),
      matched_keywords = matches search_set data\<rparr>"

text \<open>
  Two documents the search cannot tell apart: same name and description, same tags as
  sets. What a result says about the match: whose it is, the count and the keywords as a
  set.
\<close>

definition same_for_search :: "employee \<Rightarrow> employee \<Rightarrow> bool" where
  "same_for_search d d' \<longleftrightarrow>
     name d = name d' \<and> description d = description d' \<and> set (tags d) = set (tags d')"

definition outcome :: "result \<Rightarrow> string \<times> string \<times> nat \<times> string set" where
  "outcome r = (name r, description r, match_count r, set (matched_keywords r))"

text \<open>
  The fields of a stored document that the program writes itself (all but
  \<open>updated_at\<close>), and the collection seen through them.
\<close>

definition fields :: "employee \<Rightarrow> string \<times> string \<times> string list \<times> string" where
  "fields data = (name data, description data, tags data, structured_description data)"

definition documents :: "world \<Rightarrow> (string \<times> string \<times> string \<times> string list \<times> string) list" where
  "documents w = map (\<lambda>(k, data). (k, fields data)) (employees w)"



text \<open>Firestore answers the next \<open>n\<close> requests normally.\<close>

definition answers :: "nat \<Rightarrow> world \<Rightarrow> bool" where
  "answers n w \<longleftrightarrow> list_all (\<lambda>x. x = None) (take n (outages w))"

text \<open>Example data: three stored documents and a world with an empty collection.\<close>

definition taro :: employee where
  "taro = \<lparr>name = ''Taro'', description = ''backend'', tags = [''Python'', ''AWS'', ''Sales''],
           structured_description = ''- skills'', updated_at = 0\<rparr>"

definition jiro :: employee where
  "jiro = \<lparr>name = ''Jiro'', description = ''frontend'', tags = [''Java'', ''Java'', ''React''],
           structured_description = ''- skills'', updated_at = 1\<rparr>"

definition hanako :: employee where
  "hanako = \<lparr>name = ''Hanako'', description = ''infra'', tags = [''AWS'', ''Java'', ''Go''],
             structured_description = ''- skills'', updated_at = 2\<rparr>"

definition empty_world :: world where
  "empty_world = \<lparr>employees = [], server_time = 0, outages = [], requests = [], screen = []\<rparr>"

text \<open>A world with two stored documents; a Gemini model that always raises and one that answers.\<close>

definition office :: world where
  "office = \<lparr>employees = [(''Taro'', taro), (''Jiro'', jiro)], server_time = 3, outages = [],
              requests = [], screen = []\<rparr>"

definition gemini_down :: generative_model where
  "gemini_down p = Inl (Exception ''quota'')"

definition gemini_up :: generative_model where
  "gemini_up p = (case p of Tag_prompt text \<Rightarrow> Inr ''Go, AWS'' | Structure_prompt text \<Rightarrow> Inr ''- Go'')"



section \<open>Properties\<close>

subsection \<open>Sets, the loop and the sort\<close>

lemma set_matches: "set (matches (py_set q) d) = set q \<inter> set (tags d)"
  by (auto simp: matches_def intersection_def py_set_def)

lemma distinct_matches: "distinct (matches (py_set q) d)"
  by (simp add: matches_def intersection_def py_set_def)

lemma length_matches: "length (matches (py_set q) d) = card (set q \<inter> set (tags d))"
  using distinct_card [OF distinct_matches, of q d] by (simp add: set_matches)

lemma matches_Nil_iff: "matches (py_set q) d = [] \<longleftrightarrow> set q \<inter> set (tags d) = {}"
  using set_matches [of q d] by (metis set_empty)

lemma for_doc_eq:
  "for_doc s docs acc = acc @ map (entry s) (filter (\<lambda>d. matches s d \<noteq> []) docs)"
  by (induction docs arbitrary: acc) (simp_all add: Let_def entry_def matches_def)

lemma rank_eq:
  "rank q docs =
     sort_reverse match_count (map (entry (py_set q)) (filter (\<lambda>d. matches (py_set q) d \<noteq> []) docs))"
  by (simp add: rank_def for_doc_eq Let_def)

lemma set_sort_reverse: "set (sort_reverse f xs) = set xs"
  by (simp add: sort_reverse_def)

lemma length_sort_reverse: "length (sort_reverse f xs) = length xs"
  by (simp add: sort_reverse_def)

lemma sorted_sort_reverse: "sorted_wrt (\<lambda>a b. f b \<le> f a) (sort_reverse f xs)"
proof -
  have "sorted (map f (sort_key f (rev xs)))" by simp
  then have "sorted_wrt (\<lambda>a b. f a \<le> f b) (sort_key f (rev xs))"
    by (simp add: sorted_wrt_map)
  then show ?thesis by (simp add: sort_reverse_def sorted_wrt_rev)
qed

lemma stable_sort_reverse:
  "filter (\<lambda>y. f y = k) (sort_reverse f xs) = filter (\<lambda>y. f y = k) xs"
  by (simp add: sort_reverse_def rev_filter [symmetric] sort_key_stable)

lemma set_rank:
  "set (rank q docs) = entry (py_set q) ` {d \<in> set docs. set q \<inter> set (tags d) \<noteq> {}}"
  by (simp add: rank_eq set_sort_reverse matches_Nil_iff)

lemma insort_key_rel:
  assumes "\<And>x y. R x y \<Longrightarrow> f x = f y" "R a b" "list_all2 R xs ys"
  shows "list_all2 R (insort_key f a xs) (insort_key f b ys)"
  using assms(3,2)
proof (induction rule: list_all2_induct)
  case Nil
  then show ?case by simp
next
  case (Cons x xs y ys)
  then show ?case using assms(1) [of a b] assms(1) [of x y] by simp
qed

lemma sort_key_rel:
  assumes "\<And>x y. R x y \<Longrightarrow> f x = f y" "list_all2 R xs ys"
  shows "list_all2 R (sort_key f xs) (sort_key f ys)"
  using assms(2)
proof (induction rule: list_all2_induct)
  case Nil
  then show ?case by simp
next
  case (Cons x xs y ys)
  then show ?case by (simp add: insort_key_rel [where R = R, OF assms(1)])
qed

lemma sort_reverse_rel:
  assumes "\<And>x y. R x y \<Longrightarrow> f x = f y" "list_all2 R xs ys"
  shows "list_all2 R (sort_reverse f xs) (sort_reverse f ys)"
proof -
  have "list_all2 R (rev xs) (rev ys)"
    using assms(2) by simp
  then have "list_all2 R (sort_key f (rev xs)) (sort_key f (rev ys))"
    using assms(1) sort_key_rel [of R f "rev xs" "rev ys"] by blast
  then show ?thesis
    by (simp add: sort_reverse_def)
qed

lemma entry_rel:
  assumes "set q = set q'" "same_for_search d d'"
  shows "outcome (entry (py_set q) d) = outcome (entry (py_set q') d')"
  using assms
  by (simp add: outcome_def entry_def length_matches set_matches same_for_search_def)

lemma hits_rel:
  assumes "set q = set q'" "list_all2 same_for_search docs docs'"
  shows "list_all2 (\<lambda>r r'. outcome r = outcome r')
           (map (entry (py_set q)) (filter (\<lambda>d. matches (py_set q) d \<noteq> []) docs))
           (map (entry (py_set q')) (filter (\<lambda>d. matches (py_set q') d \<noteq> []) docs'))"
  using assms(2)
proof (induction rule: list_all2_induct)
  case Nil
  then show ?case by simp
next
  case (Cons d ds d' ds')
  have "set q \<inter> set (tags d) = set q' \<inter> set (tags d')"
    using assms(1) Cons.hyps(1) by (simp add: same_for_search_def)
  then show ?case
    using Cons entry_rel [OF assms(1) Cons.hyps(1)] by (simp add: matches_Nil_iff)
qed

lemma rank_rel:
  assumes "set q = set q'" "list_all2 same_for_search docs docs'"
  shows "map outcome (rank q docs) = map outcome (rank q' docs')"
proof -
  have "list_all2 (\<lambda>r r'. outcome r = outcome r') (rank q docs) (rank q' docs')"
    unfolding rank_eq
    by (rule sort_reverse_rel [OF _ hits_rel [OF assms]]) (simp add: outcome_def)
  then show ?thesis
    by (simp add: list_all2_conv_all_nth list_eq_iff_nth_eq)
qed

subsection \<open>The services and the handlers\<close>

lemma extract_Inl:
  "model (Tag_prompt text) = Inl e \<Longrightarrow>
   extract_tags_with_gemini model text w =
     ([], w\<lparr>requests := requests w @ [Generate_content (Tag_prompt text)],
            screen := screen w @ [St_error (''Gemini API Error: '' @ str_of_exception e)]\<rparr>)"
  by (simp add: extract_tags_with_gemini_def send_def st_def)

lemma extract_Inr:
  "model (Tag_prompt text) = Inr r \<Longrightarrow>
   extract_tags_with_gemini model text w =
     (map strip (split_comma r), w\<lparr>requests := requests w @ [Generate_content (Tag_prompt text)]\<rparr>)"
  by (simp add: extract_tags_with_gemini_def send_def st_def)

lemma structure_Inl:
  "model (Structure_prompt text) = Inl e \<Longrightarrow>
   structure_description_with_gemini model text w =
     (structuring_failed,
      w\<lparr>requests := requests w @ [Generate_content (Structure_prompt text)],
        screen := screen w @ [St_error (''Gemini API Error (Structure): '' @ str_of_exception e)]\<rparr>)"
  by (simp add: structure_description_with_gemini_def send_def st_def)

lemma structure_Inr:
  "model (Structure_prompt text) = Inr r \<Longrightarrow>
   structure_description_with_gemini model text w =
     (r, w\<lparr>requests := requests w @ [Generate_content (Structure_prompt text)]\<rparr>)"
  by (simp add: structure_description_with_gemini_def send_def st_def)




lemma save_writes:
  "answers 1 w \<Longrightarrow>
   save_employee_data n d t s w =
     (None, w\<lparr>requests := requests w @ [Document_set n n d t s],
              outages := tl (outages w),
              employees := AList.update n
                 \<lparr>name = n, description = d, tags = t, structured_description = s,
                  updated_at = server_time w\<rparr> (employees w),
              server_time := Suc (server_time w)\<rparr>)"
  by (cases "outages w") (simp_all add: answers_def save_employee_data_def firestore_def send_def)

lemma save_None_iff: "fst (save_employee_data n d t s w) = None \<longleftrightarrow> answers 1 w"
proof (cases "outages w")
  case Nil
  then show ?thesis by (simp add: answers_def save_employee_data_def firestore_def send_def)
next
  case (Cons x xs)
  then show ?thesis
    by (cases x) (simp_all add: answers_def save_employee_data_def firestore_def send_def)
qed


lemma search_reads:
  "answers 1 w \<Longrightarrow>
   search_employees_by_tags q w =
     (Inr (rank q (map snd (employees w))),
      w\<lparr>requests := requests w @ [Collection_stream], outages := tl (outages w)\<rparr>)"
  by (cases "outages w") (simp_all add: answers_def search_employees_by_tags_def firestore_def send_def)

lemma answers_2:
  "answers 2 w \<longleftrightarrow>
     outages w = [] \<or> outages w = [None] \<or> (\<exists>rest. outages w = None # None # rest)"
proof (cases "outages w")
  case Nil
  then show ?thesis by (simp add: answers_def)
next
  case (Cons x xs)
  then show ?thesis by (cases xs) (auto simp: answers_def numeral_2_eq_2)
qed

lemma register_form_done:
  fixes model :: generative_model and w :: world and name_input desc_input :: string
  assumes "name_input \<noteq> []" "desc_input \<noteq> []" "answers 2 w"
  defines "w' \<equiv> snd (register_form model True name_input desc_input w)"
  defines "extracted_tags \<equiv> fst (extract_tags_with_gemini model desc_input w)"
  defines "structured_desc \<equiv> fst (structure_description_with_gemini model desc_input w)"
  shows "fst (register_form model True name_input desc_input w) = None"
    and "employees w' =
           AList.update name_input
             \<lparr>name = name_input, description = desc_input, tags = extracted_tags,
              structured_description = structured_desc, updated_at = Suc (server_time w)\<rparr>
             (employees w)"
    and "server_time w' = server_time w + 2"
    and "outages w' = drop 2 (outages w)"
    and "requests w' = requests w @
           [Generate_content (Tag_prompt desc_input), Generate_content (Structure_prompt desc_input),
            Document_set name_input name_input desc_input extracted_tags structured_desc,
            Document_set name_input name_input desc_input extracted_tags structured_desc]"
    and "last (screen w') = St_success_registered name_input"
proof -
  note defs = register_form_def extract_tags_with_gemini_def structure_description_with_gemini_def
    save_employee_data_def firestore_def send_def st_def Let_def
  from assms(3) consider "outages w = []" | "outages w = [None]"
    | rest where "outages w = None # None # rest"
    unfolding answers_2 by blast
  then have "fst (register_form model True name_input desc_input w) = None \<and>
    employees w' =
           AList.update name_input
             \<lparr>name = name_input, description = desc_input, tags = extracted_tags,
              structured_description = structured_desc, updated_at = Suc (server_time w)\<rparr>
             (employees w) \<and>
    server_time w' = server_time w + 2 \<and> outages w' = drop 2 (outages w) \<and>
    requests w' = requests w @
           [Generate_content (Tag_prompt desc_input), Generate_content (Structure_prompt desc_input),
            Document_set name_input name_input desc_input extracted_tags structured_desc,
            Document_set name_input name_input desc_input extracted_tags structured_desc] \<and>
    last (screen w') = St_success_registered name_input"
    unfolding w'_def extracted_tags_def structured_desc_def
    using assms(1,2)
    by cases (simp_all add: defs split: sum.splits)
  then show "fst (register_form model True name_input desc_input w) = None"
    and "employees w' =
           AList.update name_input
             \<lparr>name = name_input, description = desc_input, tags = extracted_tags,
              structured_description = structured_desc, updated_at = Suc (server_time w)\<rparr>
             (employees w)"
    and "server_time w' = server_time w + 2"
    and "outages w' = drop 2 (outages w)"
    and "requests w' = requests w @
           [Generate_content (Tag_prompt desc_input), Generate_content (Structure_prompt desc_input),
            Document_set name_input name_input desc_input extracted_tags structured_desc,
            Document_set name_input name_input desc_input extracted_tags structured_desc]"
    and "last (screen w') = St_success_registered name_input"
    by blast+
qed

lemma register_form_None_iff:
  assumes "name_input \<noteq> []" "desc_input \<noteq> []"
  shows "fst (register_form model True name_input desc_input w) = None \<longleftrightarrow> answers 2 w"
proof
  assume "answers 2 w"
  then show "fst (register_form model True name_input desc_input w) = None"
    using assms by (rule register_form_done(1) [rotated 2])
next
  assume *: "fst (register_form model True name_input desc_input w) = None"
  show "answers 2 w"
  proof (rule ccontr)
    assume "\<not> answers 2 w"
    then consider e rest where "outages w = Some e # rest"
      | e rest where "outages w = None # Some e # rest"
      unfolding answers_2
      by (cases "outages w"; cases "hd (outages w)"; cases "tl (outages w)";
          cases "hd (tl (outages w))") auto
    then have "fst (register_form model True name_input desc_input w) \<noteq> None"
      using assms
      by cases
        (simp_all add: register_form_def extract_tags_with_gemini_def
           structure_description_with_gemini_def save_employee_data_def firestore_def
           send_def st_def Let_def split: sum.splits)
    with * show False by contradiction
  qed
qed



lemma filter_update:
  "distinct (map fst al) \<Longrightarrow> filter (\<lambda>p. fst p = k) (AList.update k v al) = [(k, v)]"
proof (induction al)
  case Nil
  then show ?case by simp
next
  case (Cons p ps)
  have "filter (\<lambda>q. fst q = k) ps = []" if "fst p = k"
  proof -
    have "fst q \<noteq> k" if "q \<in> set ps" for q
      using that \<open>fst p = k\<close> Cons.prems by (metis distinct.simps(2) image_eqI list.simps(9) set_map)
    then show ?thesis by (simp add: filter_empty_conv)
  qed
  with Cons show ?case by auto
qed

lemma map_update:
  "map (\<lambda>(k, x). (k, f x)) (AList.update k v al) =
   AList.update k (f v) (map (\<lambda>(k, x). (k, f x)) al)"
  by (induction al) auto

lemma documents_save:
  "answers 1 w \<Longrightarrow>
   documents (snd (save_employee_data n d t s w)) = AList.update n (n, d, t, s) (documents w)"
  by (simp add: save_writes documents_def map_update fields_def)

lemma gemini_up_tags:
  "fst (extract_tags_with_gemini gemini_up ''Go and AWS'' office) = [''Go'', ''AWS'']"
  by code_simp

lemma gemini_up_structure:
  "fst (structure_description_with_gemini gemini_up ''Go and AWS'' office) = ''- Go''"
  by code_simp

lemma register_form_sends:
  assumes "name_input \<noteq> []" "desc_input \<noteq> []"
  shows "take (length (requests w) + 3)
           (requests (snd (register_form model True name_input desc_input w))) =
         requests w @
           [Generate_content (Tag_prompt desc_input),
            Generate_content (Structure_prompt desc_input),
            Document_set name_input name_input desc_input
              (fst (extract_tags_with_gemini model desc_input w))
              (fst (structure_description_with_gemini model desc_input w))]"
proof (cases "outages w")
  case Nil
  then show ?thesis
    using assms
    by (simp add: register_form_def extract_tags_with_gemini_def
          structure_description_with_gemini_def save_employee_data_def firestore_def
          send_def st_def Let_def split: sum.splits)
next
  case (Cons x xs)
  then show ?thesis
    using assms
    by (cases x; cases xs; cases "hd xs")
       (simp_all add: register_form_def extract_tags_with_gemini_def
          structure_description_with_gemini_def save_employee_data_def firestore_def
          send_def st_def Let_def split: sum.splits)
qed


lemma search_button_no_match:
  assumes "search_query \<noteq> []" "answers 1 w"
    and "rank (fst (extract_tags_with_gemini model search_query w)) (map snd (employees w)) = []"
  shows "fst (search_button model True search_query w) = None \<and>
         last (screen (snd (search_button model True search_query w))) = St_warning_no_match"
proof (cases "outages w")
  case Nil
  then show ?thesis
    using assms(1,3)
    by (simp add: search_button_def extract_tags_with_gemini_def search_employees_by_tags_def
          firestore_def send_def st_def Let_def split: sum.splits)
next
  case (Cons x xs)
  then have "x = None" using assms(2) by (simp add: answers_def)
  then show ?thesis
    using assms(1,3) Cons
    by (simp add: search_button_def extract_tags_with_gemini_def search_employees_by_tags_def
          firestore_def send_def st_def Let_def split: sum.splits)
qed

section \<open>The claims\<close>

text \<open>
  Claim C1. For a non-empty list of query tags and a document among those read whose tags
  have an element in common with the query (as equal strings), the result of \<open>rank\<close>
  has an entry with that document's name, description and tags, whose \<open>match_count\<close>
  is the number of elements of the intersection of the two tag sets, hence at least 1, and
  whose \<open>matched_keywords\<close> are, as a set, that intersection (each listed once).
\<close>

theorem rank_includes_overlapping:
  assumes "query_tags \<noteq> []" and "d \<in> set docs" and "set query_tags \<inter> set (tags d) \<noteq> {}"
  shows "\<exists>r \<in> set (rank query_tags docs).
           name r = name d \<and> description r = description d \<and> tags r = tags d \<and>
           match_count r = card (set query_tags \<inter> set (tags d)) \<and>
           1 \<le> match_count r \<and>
           set (matched_keywords r) = set query_tags \<inter> set (tags d) \<and>
           distinct (matched_keywords r)"
proof -
  let ?r = "entry (py_set query_tags) d"
  have "?r \<in> set (rank query_tags docs)"
    using assms(2,3) by (simp add: set_rank)
  moreover have "0 < card (set query_tags \<inter> set (tags d))"
    using assms(3) by (simp add: card_gt_0_iff)
  ultimately show ?thesis
    by (intro bexI [of _ ?r])
       (simp_all add: entry_def length_matches set_matches distinct_matches)
qed

theorem rank_includes_overlapping_witness:
  "[''Python'', ''Java''] \<noteq> [] \<and> taro \<in> set [taro] \<and>
   set [''Python'', ''Java''] \<inter> set (tags taro) \<noteq> {} \<and>
   (\<exists>r \<in> set (rank [''Python'', ''Java''] [taro]).
      name r = ''Taro'' \<and> match_count r = 1 \<and> set (matched_keywords r) = {''Python''})"
proof -
  have h: "set [''Python'', ''Java''] \<inter> set (tags taro) = {''Python''}"
    by (auto simp: taro_def)
  have "card (set [''Python'', ''Java''] \<inter> set (tags taro)) = 1"
    unfolding h by simp
  then show ?thesis
    using rank_includes_overlapping [of "[''Python'', ''Java'']" taro "[taro]"] h
    by (auto simp: taro_def)
qed

text \<open>
  Claim C2. A document whose tags have nothing in common with the query tags has no entry
  in the result of \<open>rank\<close>: no entry carries its tags, and the result has exactly as many
  entries as there are documents with a common tag. With no query tags the result is
  empty for every list of documents, and \<^verbatim>\<open>search_employees_by_tags\<close> then returns the
  empty list as its value, not an exception, when Firestore answers. A search whose tags
  are common with no stored document ends without an exception, with the warning that
  nobody matched on the page.
\<close>

theorem rank_excludes_disjoint:
  "(d \<in> set docs \<and> set query_tags \<inter> set (tags d) = {} \<longrightarrow>
      \<not> (\<exists>r \<in> set (rank query_tags docs).
            name r = name d \<and> description r = description d \<and> tags r = tags d)) \<and>
   length (rank query_tags docs) =
     length (filter (\<lambda>d. set query_tags \<inter> set (tags d) \<noteq> {}) docs) \<and>
   rank [] docs = [] \<and>
   (answers 1 w \<longrightarrow> fst (search_employees_by_tags [] w) = Inr []) \<and>
   (answers 1 w \<and> search_query \<noteq> [] \<and>
    (\<forall>d \<in> set (map snd (employees w)).
        set (fst (extract_tags_with_gemini model search_query w)) \<inter> set (tags d) = {}) \<longrightarrow>
      fst (search_button model True search_query w) = None \<and>
      last (screen (snd (search_button model True search_query w))) = St_warning_no_match)"
proof -
  have a: "\<not> (\<exists>r \<in> set (rank query_tags docs). tags r = tags d)"
    if "set query_tags \<inter> set (tags d) = {}"
    using that by (auto simp: set_rank entry_def)
  have b: "length (rank q ds) = length (filter (\<lambda>d. set q \<inter> set (tags d) \<noteq> {}) ds)" for q ds
    by (simp add: rank_eq length_sort_reverse matches_Nil_iff)
  have c: "rank [] ds = []" for ds
    using b [of "[]" ds] by simp
  have d: "fst (search_employees_by_tags [] w) = Inr []" if "answers 1 w"
    using that by (simp add: search_reads c)
  have e: "fst (search_button model True search_query w) = None \<and>
      last (screen (snd (search_button model True search_query w))) = St_warning_no_match"
    if "answers 1 w" "search_query \<noteq> []"
      "\<forall>d \<in> set (map snd (employees w)).
        set (fst (extract_tags_with_gemini model search_query w)) \<inter> set (tags d) = {}"
  proof -
    have "filter (\<lambda>d. set (fst (extract_tags_with_gemini model search_query w)) \<inter> set (tags d) \<noteq> {})
            (map snd (employees w)) = []"
      using that(3) by (simp only: filter_empty_conv) blast
    then have "rank (fst (extract_tags_with_gemini model search_query w)) (map snd (employees w)) = []"
      using b [of "fst (extract_tags_with_gemini model search_query w)" "map snd (employees w)"]
      by simp
    then show ?thesis
      using search_button_no_match [OF that(2,1)] by blast
  qed
  show ?thesis
    using a b c d e by blast
qed

theorem rank_excludes_disjoint_witness:
  "taro \<in> set [taro, jiro] \<and> set [''Java''] \<inter> set (tags taro) = {} \<and>
   \<not> (\<exists>r \<in> set (rank [''Java''] [taro, jiro]).
         name r = name taro \<and> description r = description taro \<and> tags r = tags taro) \<and>
   length (rank [''Java''] [taro, jiro]) = 1 \<and>
   answers 1 office \<and> fst (search_employees_by_tags [] office) = Inr [] \<and>
   ''Rust'' \<noteq> [] \<and>
   fst (extract_tags_with_gemini gemini_down ''Rust'' office) = [] \<and>
   fst (search_button gemini_down True ''Rust'' office) = None \<and>
   last (screen (snd (search_button gemini_down True ''Rust'' office))) = St_warning_no_match"
proof -
  have t: "fst (extract_tags_with_gemini gemini_down ''Rust'' office) = []"
    by (simp add: extract_tags_with_gemini_def gemini_down_def)
  have h: "\<forall>d \<in> set (map snd (employees office)).
       set (fst (extract_tags_with_gemini gemini_down ''Rust'' office)) \<inter> set (tags d) = {}"
    unfolding t by simp
  have a: "answers 1 office"
    by (simp add: answers_def office_def)
  have l: "length (filter (\<lambda>d. set [''Java''] \<inter> set (tags d) \<noteq> {}) [taro, jiro]) = 1"
    by (simp add: taro_def jiro_def)
  show ?thesis
    using rank_excludes_disjoint [of taro "[taro, jiro]" "[''Java'']" office "''Rust''" gemini_down]
      h a l t
    by (simp add: taro_def)
qed

text \<open>
  Claim C3. The result of \<open>rank\<close> is in descending order of \<open>match_count\<close>, and the
  entries with one and the same \<open>match_count\<close> stand in the order in which their
  documents were read.
\<close>

theorem rank_sorted_stable:
  "sorted_wrt (\<lambda>a b. match_count b \<le> match_count a) (rank query_tags docs) \<and>
   (\<forall>k. filter (\<lambda>r. match_count r = k) (rank query_tags docs) =
        map (entry (py_set query_tags))
          (filter (\<lambda>d. card (set query_tags \<inter> set (tags d)) = k \<and> 0 < k) docs))"
proof -
  have "filter (\<lambda>r. match_count r = k) (rank query_tags docs) =
        map (entry (py_set query_tags))
          (filter (\<lambda>d. card (set query_tags \<inter> set (tags d)) = k \<and> 0 < k) docs)" for k
  proof -
    have "(matches (py_set query_tags) d \<noteq> [] \<and> match_count (entry (py_set query_tags) d) = k)
          \<longleftrightarrow> (card (set query_tags \<inter> set (tags d)) = k \<and> 0 < k)" for d
      using length_matches [of query_tags d] length_greater_0_conv [of "matches (py_set query_tags) d"]
      by (auto simp: entry_def)
    then show ?thesis
      by (simp add: rank_eq stable_sort_reverse filter_map comp_def conj_commute)
  qed
  then show ?thesis
    by (simp add: rank_eq sorted_sort_reverse)
qed

theorem rank_sorted_stable_witness:
  "sorted_wrt (\<lambda>a b. match_count b \<le> match_count a) (rank [''Java'', ''AWS''] [taro, jiro, hanako]) \<and>
   map name (rank [''Java'', ''AWS''] [taro, jiro, hanako]) = [''Hanako'', ''Taro'', ''Jiro''] \<and>
   map match_count (rank [''Java'', ''AWS''] [taro, jiro, hanako]) = [2, 1, 1] \<and>
   map name (filter (\<lambda>r. match_count r = 1) (rank [''Java'', ''AWS''] [taro, jiro, hanako]))
     = [''Taro'', ''Jiro'']"
proof -
  have c: "card (set [''Java'', ''AWS''] \<inter> set (tags taro)) = 1"
    "card (set [''Java'', ''AWS''] \<inter> set (tags jiro)) = 1"
    "card (set [''Java'', ''AWS''] \<inter> set (tags hanako)) = 2"
    by (simp_all add: taro_def jiro_def hanako_def)
  note t = rank_sorted_stable [of "[''Java'', ''AWS'']" "[taro, jiro, hanako]"]
  from t have f: "filter (\<lambda>r. match_count r = 1) (rank [''Java'', ''AWS''] [taro, jiro, hanako]) =
      map (entry (py_set [''Java'', ''AWS'']))
        (filter (\<lambda>d. card (set [''Java'', ''AWS''] \<inter> set (tags d)) = 1 \<and> (0::nat) < 1)
           [taro, jiro, hanako])"
    by blast
  have n: "map name (filter (\<lambda>r. match_count r = 1) (rank [''Java'', ''AWS''] [taro, jiro, hanako]))
     = [''Taro'', ''Jiro'']"
    unfolding f using c by (simp add: entry_def) (simp add: taro_def jiro_def)
  have e: "map name (rank [''Java'', ''AWS''] [taro, jiro, hanako]) = [''Hanako'', ''Taro'', ''Jiro'']"
    "map match_count (rank [''Java'', ''AWS''] [taro, jiro, hanako]) = [2, 1, 1]"
    by code_simp+
  show ?thesis
    using t n e by simp
qed

text \<open>
  Claim C4. \<^verbatim>\<open>save_employee_data\<close> writes the document whose id is the name. After a
  write for a name and a second write for the same name, the collection holds exactly one
  document for that name and it is the second one in full (nothing of the first remains);
  no document is added by the second write and the documents of other names are as before
  the two writes. When both writes carry the same field values, the collection after the
  second write is, leaving out \<open>updated_at\<close>, the one after the first.
\<close>

theorem save_employee_data_upsert:
  assumes "distinct (map fst (employees w))"
    and "save_employee_data n d0 t0 s0 w = (None, w1)"
    and "save_employee_data n d t s w1 = (None, w2)"
  shows "filter (\<lambda>p. fst p = n) (employees w2) =
           [(n, \<lparr>name = n, description = d, tags = t, structured_description = s,
                 updated_at = server_time w1\<rparr>)] \<and>
         map fst (employees w2) = map fst (employees w1) \<and>
         (\<forall>k. k \<noteq> n \<longrightarrow> map_of (employees w2) k = map_of (employees w) k) \<and>
         ((d0, t0, s0) = (d, t, s) \<longrightarrow> documents w2 = documents w1)"
proof -
  have a1: "answers 1 w" and a2: "answers 1 w1"
    using assms(2,3) save_None_iff [of n d0 t0 s0 w] save_None_iff [of n d t s w1] by simp_all
  have e1: "employees w1 = AList.update n
      \<lparr>name = n, description = d0, tags = t0, structured_description = s0,
       updated_at = server_time w\<rparr> (employees w)"
    using assms(2) save_writes [OF a1, of n d0 t0 s0] by auto
  have e2: "employees w2 = AList.update n
      \<lparr>name = n, description = d, tags = t, structured_description = s,
       updated_at = server_time w1\<rparr> (employees w1)"
    using assms(3) save_writes [OF a2, of n d t s] by auto
  have d1: "distinct (map fst (employees w1))"
    unfolding e1 using assms(1) by (rule AList.distinct_update)
  have "filter (\<lambda>p. fst p = n) (employees w2) =
           [(n, \<lparr>name = n, description = d, tags = t, structured_description = s,
                 updated_at = server_time w1\<rparr>)]"
    unfolding e2 using d1 by (rule filter_update)
  moreover have "map fst (employees w2) = map fst (employees w1)"
    unfolding e2 by (simp add: AList.update_keys e1 AList.dom_update)
  moreover have "map_of (employees w2) k = map_of (employees w) k" if "k \<noteq> n" for k
    using that by (simp add: e2 e1 AList.update_conv')
  moreover have "documents w2 = documents w1" if "(d0, t0, s0) = (d, t, s)"
  proof -
    have "documents w1 = AList.update n (n, d, t, s) (documents w)"
      using documents_save [OF a1, of n d0 t0 s0] assms(2) that by simp
    moreover have "documents w2 = AList.update n (n, d, t, s) (documents w1)"
      using documents_save [OF a2, of n d t s] assms(3) by simp
    ultimately show ?thesis by simp
  qed
  ultimately show ?thesis by blast
qed

theorem save_employee_data_upsert_witness:
  "\<exists>w1 w2. distinct (map fst (employees office)) \<and>
     save_employee_data ''Taro'' ''sales'' [''Go''] ''- Go'' office = (None, w1) \<and>
     save_employee_data ''Taro'' ''sales'' [''Go''] ''- Go'' w1 = (None, w2) \<and>
     filter (\<lambda>p. fst p = ''Taro'') (employees w2) =
       [(''Taro'', \<lparr>name = ''Taro'', description = ''sales'', tags = [''Go''],
                    structured_description = ''- Go'', updated_at = 4\<rparr>)] \<and>
     map fst (employees w2) = [''Taro'', ''Jiro''] \<and>
     documents w2 = documents w1"
proof -
  define w1 where "w1 = snd (save_employee_data ''Taro'' ''sales'' [''Go''] ''- Go'' office)"
  define w2 where "w2 = snd (save_employee_data ''Taro'' ''sales'' [''Go''] ''- Go'' w1)"
  have a: "answers 1 office"
    by (simp add: answers_def office_def)
  have h0: "distinct (map fst (employees office))"
    by (simp add: office_def)
  have h1: "save_employee_data ''Taro'' ''sales'' [''Go''] ''- Go'' office = (None, w1)"
    unfolding w1_def by (simp add: save_writes [OF a])
  have t1: "server_time w1 = 4" "map fst (employees w1) = [''Taro'', ''Jiro'']" "answers 1 w1"
    unfolding w1_def
    by (simp_all add: save_employee_data_def firestore_def send_def office_def answers_def)
  have h2: "save_employee_data ''Taro'' ''sales'' [''Go''] ''- Go'' w1 = (None, w2)"
    unfolding w2_def by (simp add: save_writes [OF t1(3)])
  show ?thesis
    using save_employee_data_upsert [OF h0 h1 h2] h0 h1 h2 t1(1,2) by auto
qed




text \<open>
  Claim C6. When the Gemini call for the tags raises, \<^verbatim>\<open>extract_tags_with_gemini\<close>
  shows the error with \<^verbatim>\<open>st.error\<close> and returns the empty list, without raising. The
  registration of a non-empty name and description then still asks Gemini for the
  structured text and, Firestore answering its two writes, ends without an exception with
  the success message, the stored document having \<open>tags = []\<close>.
\<close>

theorem extraction_failure_is_not_fatal:
  assumes "model (Tag_prompt desc_input) = Inl e"
  shows "extract_tags_with_gemini model desc_input w =
           ([], w\<lparr>requests := requests w @ [Generate_content (Tag_prompt desc_input)],
                  screen := screen w @
                    [St_error (''Gemini API Error: '' @ str_of_exception e)]\<rparr>) \<and>
         (name_input \<noteq> [] \<and> desc_input \<noteq> [] \<and> answers 2 w \<longrightarrow>
            (let w' = snd (register_form model True name_input desc_input w)
             in fst (register_form model True name_input desc_input w) = None \<and>
                Generate_content (Structure_prompt desc_input) \<in> set (requests w') \<and>
                map_of (employees w') name_input =
                  Some \<lparr>name = name_input, description = desc_input, tags = [],
                        structured_description =
                          fst (structure_description_with_gemini model desc_input w),
                        updated_at = Suc (server_time w)\<rparr> \<and>
                last (screen w') = St_success_registered name_input))"
proof -
  note x = extract_Inl [of model desc_input e, OF assms]
  have t: "fst (extract_tags_with_gemini model desc_input w) = []"
    by (simp add: x)
  have "fst (register_form model True name_input desc_input w) = None \<and>
        Generate_content (Structure_prompt desc_input)
          \<in> set (requests (snd (register_form model True name_input desc_input w))) \<and>
        map_of (employees (snd (register_form model True name_input desc_input w))) name_input =
          Some \<lparr>name = name_input, description = desc_input, tags = [],
                structured_description =
                  fst (structure_description_with_gemini model desc_input w),
                updated_at = Suc (server_time w)\<rparr> \<and>
        last (screen (snd (register_form model True name_input desc_input w))) =
          St_success_registered name_input"
    if n: "name_input \<noteq> []" and d: "desc_input \<noteq> []" and a: "answers 2 w"
    using register_form_done [OF n d a, of model]
    by (simp add: t AList.update_conv')
  then show ?thesis
    unfolding Let_def using x [of w] by blast
qed

theorem extraction_failure_is_not_fatal_witness:
  "gemini_down (Tag_prompt ''Go and AWS'') = Inl (Exception ''quota'') \<and>
   fst (extract_tags_with_gemini gemini_down ''Go and AWS'' office) = [] \<and>
   screen (snd (extract_tags_with_gemini gemini_down ''Go and AWS'' office)) =
     [St_error ''Gemini API Error: quota''] \<and>
   ''Hanako'' \<noteq> [] \<and> ''Go and AWS'' \<noteq> [] \<and> answers 2 office \<and>
   fst (register_form gemini_down True ''Hanako'' ''Go and AWS'' office) = None \<and>
   map_of (employees (snd (register_form gemini_down True ''Hanako'' ''Go and AWS'' office)))
     ''Hanako'' =
     Some \<lparr>name = ''Hanako'', description = ''Go and AWS'', tags = [],
           structured_description = structuring_failed, updated_at = 4\<rparr>"
proof -
  have g: "gemini_down (Tag_prompt ''Go and AWS'') = Inl (Exception ''quota'')"
    by (simp add: gemini_down_def)
  have a: "answers 2 office"
    by (simp add: answers_def office_def)
  have s: "fst (structure_description_with_gemini gemini_down ''Go and AWS'' office) =
           structuring_failed"
    by (simp add: structure_description_with_gemini_def gemini_down_def)
  have o: "screen office = []" "server_time office = 3"
    by (simp_all add: office_def)
  show ?thesis
    using extraction_failure_is_not_fatal [where model = gemini_down and desc_input = "''Go and AWS''"
        and e = "Exception ''quota''" and w = office and name_input = "''Hanako''"] g a
    by (simp add: Let_def s o)
qed

text \<open>
  Claim C7. When the Gemini call for the structured text raises,
  \<^verbatim>\<open>structure_description_with_gemini\<close> shows the error and returns the fixed marker
  string, without raising. The registration of a non-empty name and description then still
  sends the write to Firestore, with the marker as structured description, and when
  Firestore answers its two writes the stored document has the marker as
  \<open>structured_description\<close>.
\<close>

theorem structuring_failure_is_not_fatal:
  assumes "model (Structure_prompt desc_input) = Inl e"
  shows "structure_description_with_gemini model desc_input w =
           (structuring_failed,
            w\<lparr>requests := requests w @ [Generate_content (Structure_prompt desc_input)],
              screen := screen w @
                [St_error (''Gemini API Error (Structure): '' @ str_of_exception e)]\<rparr>) \<and>
         (name_input \<noteq> [] \<and> desc_input \<noteq> [] \<longrightarrow>
            (let w' = snd (register_form model True name_input desc_input w);
                 extracted_tags = fst (extract_tags_with_gemini model desc_input w)
             in Document_set name_input name_input desc_input extracted_tags structuring_failed
                  \<in> set (requests w') \<and>
                (answers 2 w \<longrightarrow>
                   fst (register_form model True name_input desc_input w) = None \<and>
                   map_of (employees w') name_input =
                     Some \<lparr>name = name_input, description = desc_input, tags = extracted_tags,
                           structured_description = structuring_failed,
                           updated_at = Suc (server_time w)\<rparr>)))"
proof -
  let ?w' = "snd (register_form model True name_input desc_input w)"
  let ?tags = "fst (extract_tags_with_gemini model desc_input w)"
  note x = structure_Inl [of model desc_input e, OF assms]
  have s: "fst (structure_description_with_gemini model desc_input w) = structuring_failed"
    by (simp add: x)
  have sent: "Document_set name_input name_input desc_input ?tags structuring_failed
                \<in> set (requests ?w')"
    if n: "name_input \<noteq> []" and d: "desc_input \<noteq> []"
  proof -
    have "Document_set name_input name_input desc_input ?tags structuring_failed
            \<in> set (take (length (requests w) + 3) (requests ?w'))"
      unfolding register_form_sends [OF n d] s by simp
    then show ?thesis by (rule in_set_takeD)
  qed
  have stored: "fst (register_form model True name_input desc_input w) = None \<and>
      map_of (employees ?w') name_input =
        Some \<lparr>name = name_input, description = desc_input, tags = ?tags,
              structured_description = structuring_failed, updated_at = Suc (server_time w)\<rparr>"
    if n: "name_input \<noteq> []" and d: "desc_input \<noteq> []" and a: "answers 2 w"
    using register_form_done [OF n d a, of model] by (simp add: s AList.update_conv')
  show ?thesis
    unfolding Let_def using x [of w] sent stored by blast
qed

theorem structuring_failure_is_not_fatal_witness:
  "gemini_down (Structure_prompt ''Go and AWS'') = Inl (Exception ''quota'') \<and>
   fst (structure_description_with_gemini gemini_down ''Go and AWS'' office) = structuring_failed \<and>
   ''Hanako'' \<noteq> [] \<and> ''Go and AWS'' \<noteq> [] \<and> answers 2 office \<and>
   Document_set ''Hanako'' ''Hanako'' ''Go and AWS'' [] structuring_failed
     \<in> set (requests (snd (register_form gemini_down True ''Hanako'' ''Go and AWS'' office))) \<and>
   map_of (employees (snd (register_form gemini_down True ''Hanako'' ''Go and AWS'' office)))
     ''Hanako'' =
     Some \<lparr>name = ''Hanako'', description = ''Go and AWS'', tags = [],
           structured_description = structuring_failed, updated_at = 4\<rparr>"
proof -
  have g: "gemini_down (Structure_prompt ''Go and AWS'') = Inl (Exception ''quota'')"
    by (simp add: gemini_down_def)
  have a: "answers 2 office"
    by (simp add: answers_def office_def)
  have t: "fst (extract_tags_with_gemini gemini_down ''Go and AWS'' office) = []"
    by (simp add: extract_tags_with_gemini_def gemini_down_def)
  have o: "server_time office = 3"
    by (simp add: office_def)
  show ?thesis
    using structuring_failure_is_not_fatal [where model = gemini_down and desc_input = "''Go and AWS''"
        and e = "Exception ''quota''" and w = office and name_input = "''Hanako''"] g a
    by (simp add: Let_def t o)
qed

text \<open>
  Claim C8. The match treats tags as sets of strings compared for equality. When the query
  tags are replaced by a list with the same set of elements (repetitions added or removed,
  another order), and the tags of the documents by lists with the same sets of elements,
  the result has the same entries in the same order, each with the same
  \<open>match_count\<close> and the same \<open>matched_keywords\<close> as a set. A query tag that is not
  itself among the tags of a document does not match it: nothing is normalised, so a tag
  that differs in case or in surrounding whitespace from every tag of the document gives
  no entry.
\<close>

theorem rank_set_semantics:
  "(set query_tags = set query_tags' \<and> list_all2 same_for_search docs docs' \<longrightarrow>
      map outcome (rank query_tags docs) = map outcome (rank query_tags' docs')) \<and>
   (t \<notin> set (tags d) \<longrightarrow> rank [t] [d] = [])"
proof -
  have "rank [t] [d] = []" if "t \<notin> set (tags d)"
  proof -
    have "set [t] \<inter> set (tags d) = {}" using that by simp
    then have "matches (py_set [t]) d = []" by (simp only: matches_Nil_iff)
    then show ?thesis by (simp add: rank_eq sort_reverse_def)
  qed
  then show ?thesis
    using rank_rel [of query_tags query_tags' docs docs'] by blast
qed

theorem rank_set_semantics_witness:
  "set [''Python'', ''Java''] = set [''Java'', ''Python'', ''Java''] \<and>
   list_all2 same_for_search [taro] [taro\<lparr>tags := [''Sales'', ''AWS'', ''Python'', ''Python'']\<rparr>] \<and>
   map outcome (rank [''Python'', ''Java''] [taro]) =
     map outcome (rank [''Java'', ''Python'', ''Java'']
                    [taro\<lparr>tags := [''Sales'', ''AWS'', ''Python'', ''Python'']\<rparr>]) \<and>
   ''python'' \<notin> set (tags taro) \<and> rank [''python''] [taro] = []"
proof -
  have a: "set [''Python'', ''Java''] = set [''Java'', ''Python'', ''Java'']"
    by auto
  have b: "list_all2 same_for_search [taro]
             [taro\<lparr>tags := [''Sales'', ''AWS'', ''Python'', ''Python'']\<rparr>]"
    by (auto simp: same_for_search_def taro_def)
  have c: "''python'' \<notin> set (tags taro)"
    by (simp add: taro_def)
  show ?thesis
    using a b c
      rank_set_semantics [of "[''Python'', ''Java'']" "[''Java'', ''Python'', ''Java'']" "[taro]"
        "[taro\<lparr>tags := [''Sales'', ''AWS'', ''Python'', ''Python'']\<rparr>]" "''python''" taro]
    by blast
qed

text \<open>
  Claim C9. When the name or the description of a submission is the empty string, the
  registration handler does nothing: no request to Gemini, no request to Firestore, nothing
  on the page, and the collection is as it was.
\<close>

theorem register_form_requires_both:
  "name_input = [] \<or> desc_input = [] \<Longrightarrow>
   register_form model submitted name_input desc_input w = (None, w)"
  by (auto simp: register_form_def)

theorem register_form_requires_both_witness:
  "(([] :: string) = [] \<or> ''Go and AWS'' = []) \<and>
   register_form gemini_up True [] ''Go and AWS'' office = (None, office)"
  using register_form_requires_both [of "[]" "''Go and AWS''" gemini_up True office]
  by simp

text \<open>
  Claim C10. A submission with a non-empty name and description whose handler ends without
  an exception has sent \<^verbatim>\<open>doc_ref.set\<close> twice with the same name, description, tags and
  structured description. The second write has replaced the first: the collection then
  holds exactly one document for the name, with the submitted values and the time of the
  second write, and the server clock has moved twice.
\<close>

theorem registration_writes_twice:
  assumes "name_input \<noteq> []" and "desc_input \<noteq> []"
    and "distinct (map fst (employees w))"
    and "register_form model True name_input desc_input w = (None, w')"
  shows "let extracted_tags = fst (extract_tags_with_gemini model desc_input w);
             structured_desc = fst (structure_description_with_gemini model desc_input w);
             data = (\<lambda>time. \<lparr>name = name_input, description = desc_input, tags = extracted_tags,
                           structured_description = structured_desc, updated_at = time\<rparr>)
         in requests w' = requests w @
              [Generate_content (Tag_prompt desc_input),
               Generate_content (Structure_prompt desc_input),
               Document_set name_input name_input desc_input extracted_tags structured_desc,
               Document_set name_input name_input desc_input extracted_tags structured_desc] \<and>
            employees w' =
              AList.update name_input (data (Suc (server_time w)))
                (AList.update name_input (data (server_time w)) (employees w)) \<and>
            filter (\<lambda>p. fst p = name_input) (employees w') =
              [(name_input, data (Suc (server_time w)))] \<and>
            server_time w' = server_time w + 2"
proof -
  have a: "answers 2 w"
    using assms(4) register_form_None_iff [OF assms(1,2), of model w] by simp
  have w': "w' = snd (register_form model True name_input desc_input w)"
    using assms(4) by simp
  note fin = register_form_done [OF assms(1,2) a, of model, folded w']
  show ?thesis
    unfolding Let_def using fin(2,3,5) assms(3) by (simp add: filter_update)
qed

theorem registration_writes_twice_witness:
  "''Hanako'' \<noteq> [] \<and> ''Go and AWS'' \<noteq> [] \<and> distinct (map fst (employees office)) \<and>
   (\<exists>w'. register_form gemini_up True ''Hanako'' ''Go and AWS'' office = (None, w') \<and>
      requests w' =
        [Generate_content (Tag_prompt ''Go and AWS''),
         Generate_content (Structure_prompt ''Go and AWS''),
         Document_set ''Hanako'' ''Hanako'' ''Go and AWS'' [''Go'', ''AWS''] ''- Go'',
         Document_set ''Hanako'' ''Hanako'' ''Go and AWS'' [''Go'', ''AWS''] ''- Go''] \<and>
      filter (\<lambda>p. fst p = ''Hanako'') (employees w') =
        [(''Hanako'', \<lparr>name = ''Hanako'', description = ''Go and AWS'', tags = [''Go'', ''AWS''],
                       structured_description = ''- Go'', updated_at = 4\<rparr>)] \<and>
      server_time w' = 5)"
proof -
  define w' where "w' = snd (register_form gemini_up True ''Hanako'' ''Go and AWS'' office)"
  have n: "''Hanako'' \<noteq> []" and d: "''Go and AWS'' \<noteq> []"
    by simp_all
  have k: "distinct (map fst (employees office))"
    by (simp add: office_def)
  have a: "answers 2 office"
    by (simp add: answers_def office_def)
  have h: "register_form gemini_up True ''Hanako'' ''Go and AWS'' office = (None, w')"
    unfolding w'_def using register_form_done(1) [OF n d a, of gemini_up]
    by (metis prod.collapse)
  have o: "requests office = []" "server_time office = 3"
    by (simp_all add: office_def)
  show ?thesis
    using registration_writes_twice [OF n d k h] n d k h
    unfolding Let_def gemini_up_tags gemini_up_structure o
    by auto
qed

end
